theory Spec2Isabelle
  imports Complex_Main "HOL-Library.Sublist"
begin

section \<open>JavaScript strings\<close>

text \<open>
  A JavaScript string is a sequence of UTF-16 code units.  A code unit is modelled by its
  number; \<open>js\<close> turns an ASCII literal into the corresponding code units.
\<close>

type_synonym codeunit = nat
type_synonym jsstring = "codeunit list"

abbreviation cu :: "char \<Rightarrow> codeunit" where
  "cu c \<equiv> of_char c"

definition js :: "string \<Rightarrow> jsstring" where
  "js s = map of_char s"


text \<open>
  The code units matched by \<open>\s\<close> in a regular expression and removed by
  \<open>String.prototype.trim\<close>: ECMAScript WhiteSpace and LineTerminator.
\<close>

definition isWhiteSpace :: "codeunit \<Rightarrow> bool" where
  "isWhiteSpace c =
     (c = 9 \<or> c = 10 \<or> c = 11 \<or> c = 12 \<or> c = 13 \<or> c = 32 \<or> c = 160 \<or> c = 5760
      \<or> (8192 \<le> c \<and> c \<le> 8202) \<or> c = 8232 \<or> c = 8233 \<or> c = 8239 \<or> c = 8287
      \<or> c = 12288 \<or> c = 65279)"

definition trim :: "jsstring \<Rightarrow> jsstring" where
  "trim s = rev (dropWhile isWhiteSpace (rev (dropWhile isWhiteSpace s)))"

text \<open>\<open>s.indexOf(c)\<close> and \<open>s.lastIndexOf(c)\<close> for a one-unit needle; \<open>-1\<close> when absent.\<close>

fun indexOf :: "jsstring \<Rightarrow> codeunit \<Rightarrow> int" where
  "indexOf [] c = - 1"
| "indexOf (x # xs) c =
     (if x = c then 0 else (let r = indexOf xs c in if r = - 1 then - 1 else r + 1))"

definition lastIndexOf :: "jsstring \<Rightarrow> codeunit \<Rightarrow> int" where
  "lastIndexOf s c =
     (let r = indexOf (rev s) c in if r = - 1 then - 1 else int (length s) - 1 - r)"

text \<open>\<open>s[i]\<close>: \<open>undefined\<close> (here \<open>None\<close>) out of range.\<close>

definition charAt :: "jsstring \<Rightarrow> int \<Rightarrow> codeunit option" where
  "charAt s i = (if 0 \<le> i \<and> i < int (length s) then Some (s ! nat i) else None)"

text \<open>\<open>s.substring(a, b)\<close>: both indices are clamped to the string and swapped when out of order.\<close>

definition substring :: "jsstring \<Rightarrow> int \<Rightarrow> int \<Rightarrow> jsstring" where
  "substring s a b =
     (let n = int (length s);
          a' = min (max a 0) n;
          b' = min (max b 0) n;
          lo = min a' b';
          hi = max a' b'
      in take (nat (hi - lo)) (drop (nat lo) s))"

text \<open>\<open>s.includes(t)\<close>.\<close>

fun includesStr :: "jsstring \<Rightarrow> jsstring \<Rightarrow> bool" where
  "includesStr [] t = (t = [])"
| "includesStr (c # cs) t = (prefix t (c # cs) \<or> includesStr cs t)"

subsection \<open>The fence-removing replacement\<close>

text \<open>
  \<open>input.replace(/```(?:json|javascript|text)?\s*|```/g, '')\<close>.  The scan goes left to
  right.  At a position where three backticks start, the first alternative matches: the
  backticks, then the first of the tags \<open>json\<close>, \<open>javascript\<close>, \<open>text\<close> that follows (if
  any), then all white space that follows; the match is dropped and the scan goes on
  behind it.  Nothing follows \<open>\s*\<close> in the first alternative, so it never has to back
  off, and the second alternative is never reached.  At any other position the code unit
  is kept.  \<open>fenceMatch s\<close> is what remains of \<open>s\<close> behind a match at its start.
\<close>

definition fenceTag :: "jsstring \<Rightarrow> nat" where
  "fenceTag r =
     (if prefix (js ''json'') r then 4
      else if prefix (js ''javascript'') r then 10
      else if prefix (js ''text'') r then 4
      else 0)"

definition fenceMatch :: "jsstring \<Rightarrow> jsstring option" where
  "fenceMatch s =
     (if prefix (js ''```'') s
      then (let r = drop 3 s in Some (dropWhile isWhiteSpace (drop (fenceTag r) r)))
      else None)"

function replaceFences :: "jsstring \<Rightarrow> jsstring" where
  "replaceFences [] = []"
| "replaceFences (c # cs) =
     (case fenceMatch (c # cs) of
        Some rest \<Rightarrow> replaceFences rest
      | None \<Rightarrow> c # replaceFences cs)"
  by pat_completeness auto
termination
proof (relation "measure length")
  show "wf (measure length)" by simp
next
  fix c :: codeunit and cs rest :: jsstring
  assume h: "fenceMatch (c # cs) = Some rest"
  then have p: "prefix (js ''```'') (c # cs)"
    by (simp add: fenceMatch_def split: if_splits)
  have "3 \<le> length (c # cs)"
    using prefix_length_le [OF p] by (simp add: js_def)
  moreover have "length rest \<le> length (drop 3 (c # cs))"
    using h p
      length_dropWhile_le [of isWhiteSpace "drop (fenceTag (drop 3 (c # cs))) (drop 3 (c # cs))"]
    by (simp add: fenceMatch_def Let_def)
  ultimately show "(rest, c # cs) \<in> measure length" by simp
next
  fix c :: codeunit and cs :: jsstring
  show "(cs, c # cs) \<in> measure length" by simp
qed

section \<open>JavaScript values and \<open>JSON.parse\<close>\<close>

text \<open>
  A number is kept as the rational it stands for (negative zero is zero), or as one of
  the three special values.  \<open>Finite q\<close> stands for the double nearest to \<open>q\<close>; the
  rounding of the mantissa is not modelled, since nothing in this program reads it.
  An object is its list of own properties in creation order, each name once.
\<close>

datatype jsnumber = Finite rat | NaN | PosInfinity | NegInfinity

datatype jsvalue =
    JUndefined
  | JNull
  | JBool bool
  | JNumber jsnumber
  | JString jsstring
  | JArray "jsvalue list"
  | JObject "(jsstring \<times> jsvalue) list"

text \<open>
  The number a JSON numeral stands for.  What the program can observe of the rounding to
  a double is kept: a value of at most \<open>1 / 2 ^ 1075\<close> in magnitude rounds to zero, a
  value of at least \<open>2 ^ 1024 - 2 ^ 970\<close> to an infinity.
\<close>

definition toNumber :: "rat \<Rightarrow> jsnumber" where
  "toNumber q =
     (if \<bar>q\<bar> \<le> 1 / 2 ^ 1075 then Finite 0
      else if 2 ^ 1024 - 2 ^ 970 \<le> \<bar>q\<bar> then (if 0 < q then PosInfinity else NegInfinity)
      else Finite q)"

definition jsonNumber :: "bool \<Rightarrow> nat \<Rightarrow> nat \<Rightarrow> bool \<Rightarrow> nat \<Rightarrow> jsnumber" where
  "jsonNumber neg mant fd eneg ex =
     (let e = (if eneg then - int ex else int ex) - int fd;
          q = (if 0 \<le> e then of_nat mant * 10 ^ nat e else of_nat mant / 10 ^ nat (- e))
      in toNumber (if neg then - q else q))"

text \<open>
  \<open>JSON.parse\<close> creates the properties of an object in the order of the text; a name that
  comes again replaces the value and keeps the place.
\<close>

fun setProperty :: "jsstring \<Rightarrow> jsvalue \<Rightarrow> (jsstring \<times> jsvalue) list \<Rightarrow> (jsstring \<times> jsvalue) list" where
  "setProperty k v [] = [(k, v)]"
| "setProperty k v (p # ps) = (if fst p = k then (k, v) # ps else p # setProperty k v ps)"

subsection \<open>\<open>JSON.parse\<close>\<close>

text \<open>
  \<open>JSON.parse\<close> is the engine's; it is modelled after the JSON grammar that ECMAScript
  prescribes for it (ECMA-404), as an automaton that reads the text once, one code unit
  at a time.  Its state is a mode and a stack of the arrays and objects that are open.
  The mode says what may come next (a value, a key, a colon, a comma or a closing
  delimiter, only white space after the top-level value) or which token is being read (a
  string, an escape, the four hexadecimal digits of a \<open>u\<close> escape, a numeral in one of the phases of its
  grammar, one of the words \<open>true\<close>, \<open>false\<close>, \<open>null\<close>).  A code unit that fits nowhere
  leads to \<open>Fail\<close>, which is final: the SyntaxError of \<open>JSON.parse\<close>.  A numeral has no
  closing delimiter: the code unit that ends it is handed on to the mode behind the
  value.
\<close>

datatype numphase = NMinus | NZero | NInt | NDot | NFrac | NE | NESign | NExp

datatype frame = FArray "jsvalue list" | FObject "(jsstring \<times> jsvalue) list" jsstring

datatype pmode =
    PValue
  | PValueOrClose
  | PKeyOrClose
  | PKey
  | PColon
  | PAfter
  | PEnd jsvalue
  | PString bool jsstring
  | PEscape bool jsstring
  | PHex bool jsstring nat nat
  | PNumber numphase bool nat nat bool nat
  | PLiteral jsstring jsvalue

datatype pstate = Fail | St pmode "frame list"

definition jsonWhiteSpace :: "codeunit \<Rightarrow> bool" where
  "jsonWhiteSpace c = (c = 9 \<or> c = 10 \<or> c = 13 \<or> c = 32)"

definition isDigit :: "codeunit \<Rightarrow> bool" where
  "isDigit c = (48 \<le> c \<and> c \<le> 57)"

definition hexValue :: "codeunit \<Rightarrow> nat option" where
  "hexValue c =
     (if 48 \<le> c \<and> c \<le> 57 then Some (c - 48)
      else if 65 \<le> c \<and> c \<le> 70 then Some (c - 55)
      else if 97 \<le> c \<and> c \<le> 102 then Some (c - 87)
      else None)"

fun putValue :: "jsvalue \<Rightarrow> frame list \<Rightarrow> pstate" where
  "putValue v [] = St (PEnd v) []"
| "putValue v (FArray items # fs) = St PAfter (FArray (items @ [v]) # fs)"
| "putValue v (FObject ms k # fs) = St PAfter (FObject (setProperty k v ms) k # fs)"

definition startValue :: "codeunit \<Rightarrow> frame list \<Rightarrow> pstate" where
  "startValue c fs =
     (if c = cu CHR ''{'' then St PKeyOrClose (FObject [] [] # fs)
      else if c = cu CHR ''['' then St PValueOrClose (FArray [] # fs)
      else if c = cu CHR 0x22 then St (PString False []) fs
      else if c = cu CHR ''-'' then St (PNumber NMinus True 0 0 False 0) fs
      else if c = cu CHR ''0'' then St (PNumber NZero False 0 0 False 0) fs
      else if isDigit c then St (PNumber NInt False (c - 48) 0 False 0) fs
      else if c = cu CHR ''t'' then St (PLiteral (js ''rue'') (JBool True)) fs
      else if c = cu CHR ''f'' then St (PLiteral (js ''alse'') (JBool False)) fs
      else if c = cu CHR ''n'' then St (PLiteral (js ''ull'') JNull) fs
      else Fail)"

fun closeArray :: "frame list \<Rightarrow> pstate" where
  "closeArray (FArray items # fs) = putValue (JArray items) fs"
| "closeArray _ = Fail"

fun closeObject :: "frame list \<Rightarrow> pstate" where
  "closeObject (FObject ms k # fs) = putValue (JObject ms) fs"
| "closeObject _ = Fail"

fun afterValue :: "codeunit \<Rightarrow> frame list \<Rightarrow> pstate" where
  "afterValue c [] = Fail"
| "afterValue c (FArray items # fs) =
     (if c = cu CHR '','' then St PValue (FArray items # fs)
      else if c = cu CHR '']'' then putValue (JArray items) fs
      else Fail)"
| "afterValue c (FObject ms k # fs) =
     (if c = cu CHR '','' then St PKey (FObject ms k # fs)
      else if c = cu CHR ''}'' then putValue (JObject ms) fs
      else Fail)"

fun resume :: "pstate \<Rightarrow> codeunit \<Rightarrow> pstate" where
  "resume (St PAfter fs) c = (if jsonWhiteSpace c then St PAfter fs else afterValue c fs)"
| "resume (St (PEnd v) fs) c = (if jsonWhiteSpace c then St (PEnd v) fs else Fail)"
| "resume _ c = Fail"

definition unescape :: "codeunit \<Rightarrow> codeunit option" where
  "unescape c =
     (if c = cu CHR 0x22 then Some 34
      else if c = cu CHR 0x5C then Some 92
      else if c = cu CHR ''/'' then Some 47
      else if c = cu CHR ''b'' then Some 8
      else if c = cu CHR ''f'' then Some 12
      else if c = cu CHR ''n'' then Some 10
      else if c = cu CHR ''r'' then Some 13
      else if c = cu CHR ''t'' then Some 9
      else None)"

fun endString :: "bool \<Rightarrow> jsstring \<Rightarrow> frame list \<Rightarrow> pstate" where
  "endString False acc fs = putValue (JString acc) fs"
| "endString True acc (FObject ms k # fs) = St PColon (FObject ms acc # fs)"
| "endString True acc _ = Fail"

definition endNumber :: "bool \<Rightarrow> nat \<Rightarrow> nat \<Rightarrow> bool \<Rightarrow> nat \<Rightarrow> frame list \<Rightarrow> codeunit \<Rightarrow> pstate" where
  "endNumber neg mant fd eneg ex fs c = resume (putValue (JNumber (jsonNumber neg mant fd eneg ex)) fs) c"

fun stepNumber :: "numphase \<Rightarrow> bool \<Rightarrow> nat \<Rightarrow> nat \<Rightarrow> bool \<Rightarrow> nat \<Rightarrow> frame list \<Rightarrow> codeunit \<Rightarrow> pstate" where
  "stepNumber NMinus neg mant fd eneg ex fs c =
     (if c = cu CHR ''0'' then St (PNumber NZero neg mant fd eneg ex) fs
      else if isDigit c then St (PNumber NInt neg (c - 48) fd eneg ex) fs
      else Fail)"
| "stepNumber NZero neg mant fd eneg ex fs c =
     (if c = cu CHR ''.'' then St (PNumber NDot neg mant fd eneg ex) fs
      else if c = cu CHR ''e'' \<or> c = cu CHR ''E'' then St (PNumber NE neg mant fd eneg ex) fs
      else endNumber neg mant fd eneg ex fs c)"
| "stepNumber NInt neg mant fd eneg ex fs c =
     (if isDigit c then St (PNumber NInt neg (mant * 10 + (c - 48)) fd eneg ex) fs
      else if c = cu CHR ''.'' then St (PNumber NDot neg mant fd eneg ex) fs
      else if c = cu CHR ''e'' \<or> c = cu CHR ''E'' then St (PNumber NE neg mant fd eneg ex) fs
      else endNumber neg mant fd eneg ex fs c)"
| "stepNumber NDot neg mant fd eneg ex fs c =
     (if isDigit c then St (PNumber NFrac neg (mant * 10 + (c - 48)) (fd + 1) eneg ex) fs
      else Fail)"
| "stepNumber NFrac neg mant fd eneg ex fs c =
     (if isDigit c then St (PNumber NFrac neg (mant * 10 + (c - 48)) (fd + 1) eneg ex) fs
      else if c = cu CHR ''e'' \<or> c = cu CHR ''E'' then St (PNumber NE neg mant fd eneg ex) fs
      else endNumber neg mant fd eneg ex fs c)"
| "stepNumber NE neg mant fd eneg ex fs c =
     (if c = cu CHR ''+'' then St (PNumber NESign neg mant fd eneg ex) fs
      else if c = cu CHR ''-'' then St (PNumber NESign neg mant fd True ex) fs
      else if isDigit c then St (PNumber NExp neg mant fd eneg (c - 48)) fs
      else Fail)"
| "stepNumber NESign neg mant fd eneg ex fs c =
     (if isDigit c then St (PNumber NExp neg mant fd eneg (c - 48)) fs else Fail)"
| "stepNumber NExp neg mant fd eneg ex fs c =
     (if isDigit c then St (PNumber NExp neg mant fd eneg (ex * 10 + (c - 48))) fs
      else endNumber neg mant fd eneg ex fs c)"

fun step :: "pstate \<Rightarrow> codeunit \<Rightarrow> pstate" where
  "step Fail c = Fail"
| "step (St PValue fs) c = (if jsonWhiteSpace c then St PValue fs else startValue c fs)"
| "step (St PValueOrClose fs) c =
     (if jsonWhiteSpace c then St PValueOrClose fs
      else if c = cu CHR '']'' then closeArray fs
      else startValue c fs)"
| "step (St PKeyOrClose fs) c =
     (if jsonWhiteSpace c then St PKeyOrClose fs
      else if c = cu CHR ''}'' then closeObject fs
      else if c = cu CHR 0x22 then St (PString True []) fs
      else Fail)"
| "step (St PKey fs) c =
     (if jsonWhiteSpace c then St PKey fs
      else if c = cu CHR 0x22 then St (PString True []) fs
      else Fail)"
| "step (St PColon fs) c =
     (if jsonWhiteSpace c then St PColon fs
      else if c = cu CHR '':'' then St PValue fs
      else Fail)"
| "step (St PAfter fs) c = resume (St PAfter fs) c"
| "step (St (PEnd v) fs) c = resume (St (PEnd v) fs) c"
| "step (St (PString isKey acc) fs) c =
     (if c = cu CHR 0x22 then endString isKey acc fs
      else if c = cu CHR 0x5C then St (PEscape isKey acc) fs
      else if c < 32 then Fail
      else St (PString isKey (acc @ [c])) fs)"
| "step (St (PEscape isKey acc) fs) c =
     (if c = cu CHR ''u'' then St (PHex isKey acc 0 0) fs
      else (case unescape c of
              Some x \<Rightarrow> St (PString isKey (acc @ [x])) fs
            | None \<Rightarrow> Fail))"
| "step (St (PHex isKey acc n v) fs) c =
     (case hexValue c of
        None \<Rightarrow> Fail
      | Some d \<Rightarrow>
          (if n = 3 then St (PString isKey (acc @ [v * 16 + d])) fs
           else St (PHex isKey acc (n + 1) (v * 16 + d)) fs))"
| "step (St (PNumber ph neg mant fd eneg ex) fs) c = stepNumber ph neg mant fd eneg ex fs c"
| "step (St (PLiteral [] v) fs) c = Fail"
| "step (St (PLiteral (r # rs) v) fs) c =
     (if c = r then (if rs = [] then putValue v fs else St (PLiteral rs v) fs) else Fail)"

fun finish :: "pstate \<Rightarrow> jsvalue option" where
  "finish (St (PEnd v) []) = Some v"
| "finish (St (PNumber ph neg mant fd eneg ex) []) =
     (if ph = NZero \<or> ph = NInt \<or> ph = NFrac \<or> ph = NExp
      then Some (JNumber (jsonNumber neg mant fd eneg ex)) else None)"
| "finish _ = None"

definition JSON_parse :: "jsstring \<Rightarrow> jsvalue option" where
  "JSON_parse s = finish (foldl step (St PValue []) s)"

text \<open>
  What the \<open>!\<close> operator and \<open>if\<close> test: a value is falsy when it is \<open>undefined\<close>,
  \<open>null\<close>, \<open>false\<close>, zero, \<open>NaN\<close> or the empty string.
\<close>

fun truthy :: "jsvalue \<Rightarrow> bool" where
  "truthy JUndefined = False"
| "truthy JNull = False"
| "truthy (JBool b) = b"
| "truthy (JNumber n) = (n \<noteq> Finite 0 \<and> n \<noteq> NaN)"
| "truthy (JString s) = (s \<noteq> [])"
| "truthy (JArray xs) = True"
| "truthy (JObject ms) = True"

text \<open>
  \<open>v.destination\<close> and \<open>v.itinerary\<close>, the two properties the program reads from a parsed
  value: an own property of an object, and \<open>undefined\<close> on an object without it and on
  an array, string, number or boolean, none of which has or inherits a property of
  either name.  The program reads them only behind the test that \<open>v\<close> is truthy.
\<close>

fun getProperty :: "jsvalue \<Rightarrow> jsstring \<Rightarrow> jsvalue" where
  "getProperty (JObject ms) k = (case map_of ms k of Some v \<Rightarrow> v | None \<Rightarrow> JUndefined)"
| "getProperty _ k = JUndefined"

fun Array_isArray :: "jsvalue \<Rightarrow> bool" where
  "Array_isArray (JArray xs) = True"
| "Array_isArray _ = False"

section \<open>The extractor\<close>

text \<open>
  \<open>extractJsonFromString\<close> (\<open>src/services/geminiService.ts\<close>), in its three steps:
  \<open>cleanedInput\<close> is the text with the fences removed, trimmed; \<open>jsonCandidate\<close> is the
  slice of the cleaned text from the first opening delimiter to the last closing
  delimiter of the same kind; \<open>extractJsonFromString\<close> adds the trial parse.
\<close>

definition cleanedInput :: "jsstring \<Rightarrow> jsstring" where
  "cleanedInput input = trim (replaceFences input)"

definition jsonCandidate :: "jsstring \<Rightarrow> jsstring option" where
  "jsonCandidate cleaned =
     (let firstBrace = indexOf cleaned (cu CHR ''{'');
          firstBracket = indexOf cleaned (cu CHR ''['');
          firstCharIndex =
            (if firstBrace \<noteq> - 1 \<and> (firstBracket = - 1 \<or> firstBrace < firstBracket)
             then firstBrace
             else if firstBracket \<noteq> - 1 then firstBracket
             else - 1)
      in if firstCharIndex = - 1 then None
         else
           (let typeOfStart = charAt cleaned firstCharIndex;
                lastCharIndex =
                  (if typeOfStart = Some (cu CHR ''{'') then lastIndexOf cleaned (cu CHR ''}'')
                   else if typeOfStart = Some (cu CHR ''['') then lastIndexOf cleaned (cu CHR '']'')
                   else - 1)
            in if lastCharIndex = - 1 \<or> lastCharIndex < firstCharIndex then None
               else Some (substring cleaned firstCharIndex (lastCharIndex + 1))))"

definition extractJsonFromString :: "jsstring \<Rightarrow> jsstring option" where
  "extractJsonFromString input =
     (case jsonCandidate (cleanedInput input) of
        None \<Rightarrow> None
      | Some candidate \<Rightarrow>
          (if candidate \<noteq> []
           then (case JSON_parse candidate of Some v \<Rightarrow> Some candidate | None \<Rightarrow> None)
           else None))"

section \<open>The pipeline\<close>

subsection \<open>Input, request and response\<close>

text \<open>
  Modelled from the spec: the type declarations of the repository (\<open>types.ts\<close>, with
  \<open>TravelPreferences\<close>, \<open>GeneratedItinerary\<close> and \<open>ItineraryResult\<close>) are not among the
  sources.  The preferences have the fields the specification lists and
  \<open>generateItinerary\<close> reads; a coordinate is \<open>undefined\<close>, \<open>null\<close> or a number, as the
  caller passes it.  The itinerary of a result is a JavaScript value: the parsed reply is
  returned as it is, only cast to \<open>GeneratedItinerary\<close>.
\<close>

datatype coordinate = CoordUndefined | CoordNull | CoordNumber jsnumber

fun coordTruthy :: "coordinate \<Rightarrow> bool" where
  "coordTruthy (CoordNumber n) = (n \<noteq> Finite 0 \<and> n \<noteq> NaN)"
| "coordTruthy _ = False"

record TravelPreferences =
  destination :: jsstring
  duration :: jsnumber
  interests :: jsstring
  budget :: jsnumber
  currency :: jsstring
  latitude :: coordinate
  longitude :: coordinate

text \<open>
  What the program takes from the JavaScript engine without computing it itself: the
  text of a number in a template literal, and the message of the TypeError raised when
  \<open>trim\<close> is read from an \<open>undefined\<close> reply text.
\<close>

record engine =
  numberToString :: "jsnumber \<Rightarrow> jsstring"
  undefinedTrimMessage :: jsstring

fun coordToString :: "engine \<Rightarrow> coordinate \<Rightarrow> jsstring" where
  "coordToString eng CoordUndefined = js ''undefined''"
| "coordToString eng CoordNull = js ''null''"
| "coordToString eng (CoordNumber n) = numberToString eng n"

datatype tool = GoogleMaps | GoogleSearch

text \<open>The schema object literal of the source is a constant; only its presence varies.\<close>

datatype schema = ItinerarySchema

record GenerateContentConfig =
  temperature :: rat
  topP :: rat
  topK :: nat
  tools :: "tool list"
  toolConfig :: "(coordinate \<times> coordinate) option"
  responseMimeType :: "jsstring option"
  responseSchema :: "schema option"

record GenerateContentParameters =
  model :: jsstring
  contents :: jsstring
  config :: GenerateContentConfig

record link =
  uri :: "jsstring option"
  title :: "jsstring option"

record placeAnswerSources =
  reviewSnippets :: "link list option"

record mapsChunk = link +
  placeAnswerSources :: "placeAnswerSources option"

record groundingChunk =
  web :: "link option"
  maps :: "mapsChunk option"

record groundingMetadata =
  groundingChunks :: "groundingChunk list option"

record candidate =
  groundingMetadata :: "groundingMetadata option"

record GenerateContentResponse =
  responseText :: "jsstring option"
  candidates :: "candidate list option"

text \<open>
  A value the Model Client rejects with: an instance of \<open>Error\<close> with its message, another
  value with a string \<open>message\<close> property, or a value without one (a thrown string or
  number, \<open>null\<close>, an object with no message).
\<close>

datatype thrown = ErrorInstance jsstring | NonErrorWithMessage jsstring | NonErrorNoMessage

datatype clientOutcome = Rejects thrown | Resolves GenerateContentResponse

text \<open>
  What the returned promise rejects with: an \<open>Error\<close> made by the program, with its
  message, or the TypeError the engine raises when the handler reads \<open>includes\<close> from a
  missing message.
\<close>

datatype rejection = Error jsstring | EngineTypeError

record ItineraryResult =
  itineraryData :: jsvalue
  sourceUrls :: "link list"

subsection \<open>\<open>generateItinerary\<close>\<close>

text \<open>
  The flag \<open>useMapsGrounding\<close>: set where \<open>latitude && longitude\<close> holds.  With it the
  request is built: prompt, model, tools, and the schema only where the flag is not set.
\<close>

definition useMapsGrounding :: "TravelPreferences \<Rightarrow> bool" where
  "useMapsGrounding preferences =
     (coordTruthy (latitude preferences) \<and> coordTruthy (longitude preferences))"

definition basePrompt :: "engine \<Rightarrow> TravelPreferences \<Rightarrow> jsstring" where
  "basePrompt eng preferences =
     js ''Buat itinerary perjalanan yang detail dan kreatif untuk perjalanan ''
     @ numberToString eng (duration preferences) @ js '' hari ke '' @ destination preferences
     @ js ''.'' @ [10]
     @ js ''  Wisatawan tertarik pada '' @ interests preferences
     @ js ''. Mereka memiliki anggaran sebesar '' @ numberToString eng (budget preferences)
     @ js '' '' @ currency preferences @ js ''.'' @ [10]
     @ js ''  '' @ [10]
     @ js ''  Harap sertakan:'' @ [10]
     @ js ''  - Ikhtisar perjalanan.'' @ [10]
     @ js ''  - Rincian rencana harian dengan tema dan aktivitas spesifik (dengan waktu yang disarankan).'' @ [10]
     @ js ''  - Saran barang bawaan yang praktis.'' @ [10]
     @ js ''  - Catatan penting untuk perjalanan.'' @ [10]
     @ js ''  - Ringkasan atau analisis tentang bagaimana anggaran ''
     @ numberToString eng (budget preferences) @ js '' '' @ currency preferences
     @ js '' dapat memengaruhi perencanaan perjalanan atau apa yang bisa didapatkan.'' @ [10]
     @ js ''  '' @ [10]
     @ js ''  Buat itinerary dalam format JSON, dan semua teks dalam properti JSON harus dalam Bahasa Indonesia.'' @ [10]
     @ js ''  Jika relevan, sertakan saran yang berfokus pada Indonesia untuk rekomendasi umum dan penelusuran.''"

definition buildRequest :: "engine \<Rightarrow> TravelPreferences \<Rightarrow> GenerateContentParameters" where
  "buildRequest eng preferences =
     (if useMapsGrounding preferences
      then
        \<lparr> model = js ''gemini-2.5-flash'',
          contents = basePrompt eng preferences
            @ js '' Lokasi pengguna saat ini kira-kira lintang ''
            @ coordToString eng (latitude preferences) @ js '', bujur ''
            @ coordToString eng (longitude preferences) @ js ''.'',
          config =
            \<lparr> temperature = 9 / 10, topP = 95 / 100, topK = 64,
              tools = [GoogleMaps, GoogleSearch],
              toolConfig = Some (latitude preferences, longitude preferences),
              responseMimeType = None,
              responseSchema = None \<rparr> \<rparr>
      else
        \<lparr> model = js ''gemini-3-pro-preview'',
          contents = basePrompt eng preferences,
          config =
            \<lparr> temperature = 9 / 10, topP = 95 / 100, topK = 64,
              tools = [GoogleSearch],
              toolConfig = None,
              responseMimeType = Some (js ''application/json''),
              responseSchema = Some ItinerarySchema \<rparr> \<rparr>)"

text \<open>The object literal built on both recovery paths.\<close>

definition fallbackItinerary :: "engine \<Rightarrow> TravelPreferences \<Rightarrow> jsstring \<Rightarrow> jsvalue" where
  "fallbackItinerary eng preferences rawResponseText =
     JObject
       [(js ''destination'', JString (destination preferences)),
        (js ''duration'', JNumber (duration preferences)),
        (js ''overview'', JString rawResponseText),
        (js ''itinerary'', JArray []),
        (js ''packingSuggestions'', JArray []),
        (js ''notes'', JString (js ''Itinerary tidak dapat diuraikan ke format terstruktur. Silakan lihat bagian ikhtisar untuk detail dan periksa tautan sumber.'')),
        (js ''budgetSummary'', JString (js ''Anggaran: '' @ numberToString eng (budget preferences)
           @ js '' '' @ currency preferences @ js ''.''))]"

text \<open>The test both modes apply to the parsed value; when it holds they throw.\<close>

definition invalidStructure :: "jsvalue \<Rightarrow> bool" where
  "invalidStructure parsedItinerary =
     (\<not> truthy parsedItinerary
      \<or> \<not> truthy (getProperty parsedItinerary (js ''destination''))
      \<or> \<not> Array_isArray (getProperty parsedItinerary (js ''itinerary'')))"

text \<open>The loop over the grounding chunks, pushing onto \<open>sourceUrls\<close>.\<close>

definition pushSnippet :: "link list \<Rightarrow> link \<Rightarrow> link list" where
  "pushSnippet acc reviewSource =
     acc @ [\<lparr> uri = uri reviewSource,
              title = (case title reviewSource of
                         None \<Rightarrow> Some (js ''Review Link'')
                       | Some t \<Rightarrow> if t \<noteq> [] then Some t else Some (js ''Review Link'')) \<rparr>]"

definition pushChunk :: "link list \<Rightarrow> groundingChunk \<Rightarrow> link list" where
  "pushChunk acc chunk =
     (case web chunk of
        Some w \<Rightarrow> acc @ [\<lparr> uri = uri w, title = title w \<rparr>]
      | None \<Rightarrow>
          (case maps chunk of
             Some m \<Rightarrow>
               (let acc1 = acc @ [\<lparr> uri = uri m, title = title m \<rparr>]
                in case placeAnswerSources m of
                     None \<Rightarrow> acc1
                   | Some pas \<Rightarrow>
                       (case reviewSnippets pas of
                          None \<Rightarrow> acc1
                        | Some snippets \<Rightarrow> foldl pushSnippet acc1 snippets))
           | None \<Rightarrow> acc))"

text \<open>\<open>response.candidates?.[0]?.groundingMetadata?.groundingChunks\<close>.\<close>

definition responseChunks :: "GenerateContentResponse \<Rightarrow> groundingChunk list option" where
  "responseChunks response =
     (case candidates response of
        None \<Rightarrow> None
      | Some cs \<Rightarrow>
          (case cs of
             [] \<Rightarrow> None
           | c # _ \<Rightarrow>
               (case groundingMetadata c of
                  None \<Rightarrow> None
                | Some gm \<Rightarrow> groundingChunks gm)))"

definition collectSourceUrls :: "GenerateContentResponse \<Rightarrow> link list" where
  "collectSourceUrls response =
     (case responseChunks response of
        None \<Rightarrow> []
      | Some chunks \<Rightarrow> foldl pushChunk [] chunks)"

text \<open>The outer \<open>catch\<close> block, applied to whatever was thrown inside the \<open>try\<close>.\<close>

definition handleError :: "thrown \<Rightarrow> rejection" where
  "handleError error =
     (case error of
        NonErrorNoMessage \<Rightarrow> EngineTypeError
      | ErrorInstance message \<Rightarrow>
          (if includesStr message (js ''Requested entity was not found.'')
           then Error (js ''Kunci API mungkin tidak valid atau tidak terpilih. Harap pastikan Anda telah memilih kunci API berbayar yang valid melalui dialog pemilihan kunci API.'')
           else Error (js ''Kesalahan API Gemini: '' @ message))
      | NonErrorWithMessage message \<Rightarrow>
          (if includesStr message (js ''Requested entity was not found.'')
           then Error (js ''Kunci API mungkin tidak valid atau tidak terpilih. Harap pastikan Anda telah memilih kunci API berbayar yang valid melalui dialog pemilihan kunci API.'')
           else Error (js ''Terjadi kesalahan yang tidak diketahui saat memanggil API Gemini.'')))"

text \<open>
  The body of the \<open>try\<close> block behind the call, for a resolved response: \<open>Inl\<close> what it
  throws to the outer \<open>catch\<close>.  The errors thrown inside the two inner \<open>try\<close> blocks reach
  only the inner \<open>catch\<close> blocks, which do not look at them: in Grounded mode the inner
  \<open>catch\<close> returns the fallback, in Structured mode it throws a new error.
\<close>

definition processResponse ::
  "engine \<Rightarrow> TravelPreferences \<Rightarrow> GenerateContentResponse \<Rightarrow> thrown + ItineraryResult" where
  "processResponse eng preferences response =
     (case responseText response of
        None \<Rightarrow> Inl (ErrorInstance (undefinedTrimMessage eng))
      | Some t \<Rightarrow>
          (let rawResponseText = trim t;
               fallback = \<lparr> itineraryData = fallbackItinerary eng preferences rawResponseText,
                            sourceUrls = [] \<rparr>
           in case extractJsonFromString rawResponseText of
                None \<Rightarrow> Inr fallback
              | Some cleanedJsonString \<Rightarrow>
                  (if cleanedJsonString = [] then Inr fallback
                   else if useMapsGrounding preferences then
                     (case JSON_parse cleanedJsonString of
                        None \<Rightarrow> Inr fallback
                      | Some parsedItinerary \<Rightarrow>
                          (if invalidStructure parsedItinerary then Inr fallback
                           else Inr \<lparr> itineraryData = parsedItinerary,
                                      sourceUrls = collectSourceUrls response \<rparr>))
                   else
                     (case JSON_parse cleanedJsonString of
                        None \<Rightarrow> Inl (ErrorInstance (js ''Respons JSON tidak valid dari API, atau data terstruktur hilang.''))
                      | Some parsedItinerary \<Rightarrow>
                          (if invalidStructure parsedItinerary
                           then Inl (ErrorInstance (js ''Respons JSON tidak valid dari API, atau data terstruktur hilang.''))
                           else Inr \<lparr> itineraryData = parsedItinerary,
                                      sourceUrls = collectSourceUrls response \<rparr>)))))"

text \<open>
  \<open>generateItinerary\<close>.  The Model Client is a collaborator with a state of its own: a
  call takes the request and the state and gives the outcome and the next state.  The
  pipeline returns what its promise settles with (\<open>Inl\<close> a rejection) and the state it
  leaves the client in.  The construction of the client object and the lines written to
  the console are left out.
\<close>

definition generateItinerary ::
  "engine \<Rightarrow> (GenerateContentParameters \<Rightarrow> 's \<Rightarrow> clientOutcome \<times> 's) \<Rightarrow> TravelPreferences \<Rightarrow> 's
   \<Rightarrow> (rejection + ItineraryResult) \<times> 's" where
  "generateItinerary eng client preferences s =
     (case client (buildRequest eng preferences) s of
        (Rejects error, s') \<Rightarrow> (Inl (handleError error), s')
      | (Resolves response, s') \<Rightarrow>
          (case processResponse eng preferences response of
             Inl error \<Rightarrow> (Inl (handleError error), s')
           | Inr result \<Rightarrow> (Inr result, s')))"


section \<open>Auxiliary notions for the statements\<close>

text \<open>The two pairs of delimiters: braces for an object, brackets for an array.\<close>

definition delimiters :: "codeunit \<Rightarrow> codeunit \<Rightarrow> bool" where
  "delimiters opn cls =
     (opn = cu CHR ''{'' \<and> cls = cu CHR ''}'' \<or> opn = cu CHR ''['' \<and> cls = cu CHR '']'')"

text \<open>
  The code units a fence match can take in: a backtick, a letter of one of the three
  tags, white space.
\<close>

definition consumable :: "codeunit \<Rightarrow> bool" where
  "consumable c = (c = cu CHR 0x60 \<or> isWhiteSpace c \<or> c \<in> set (js ''jsonavascripttext''))"

text \<open>
  A structural mismatch of an extracted text: it does not parse, or the test on the parsed
  value fails.  Either way the \<open>catch\<close> block of the mode runs.
\<close>

definition structuralMismatch :: "jsstring \<Rightarrow> bool" where
  "structuralMismatch cleanedJsonString =
     (case JSON_parse cleanedJsonString of None \<Rightarrow> True | Some v \<Rightarrow> invalidStructure v)"




subsection \<open>Concrete inputs for the examples\<close>

text \<open>
  An engine whose number text is right on integers below \<open>10 ^ 21\<close>, the preferences of
  the specification's end-to-end example, a client that gives the same outcome to every
  call and counts the calls in its state, and two responses.
\<close>

fun natText :: "nat \<Rightarrow> jsstring" where
  "natText n = (if n < 10 then [48 + n] else natText (n div 10) @ [48 + n mod 10])"

declare natText.simps [simp del]

fun integerText :: "jsnumber \<Rightarrow> jsstring" where
  "integerText (Finite q) = (if q < 0 then js ''-'' else []) @ natText (nat \<lfloor>\<bar>q\<bar>\<rfloor>)"
| "integerText NaN = js ''NaN''"
| "integerText PosInfinity = js ''Infinity''"
| "integerText NegInfinity = js ''-Infinity''"

definition exampleEngine :: engine where
  "exampleEngine =
     \<lparr> numberToString = integerText,
       undefinedTrimMessage = js ''Cannot read properties of undefined (reading trim)'' \<rparr>"

definition examplePreferences :: "coordinate \<Rightarrow> coordinate \<Rightarrow> TravelPreferences" where
  "examplePreferences lat lon =
     \<lparr> destination = js ''Kyoto'', duration = Finite 3, interests = js ''food'',
       budget = Finite 500, currency = js ''USD'', latitude = lat, longitude = lon \<rparr>"

definition answering ::
  "clientOutcome \<Rightarrow> GenerateContentParameters \<Rightarrow> nat \<Rightarrow> clientOutcome \<times> nat" where
  "answering outcome request calls = (outcome, calls + 1)"

definition citedResponse :: "jsstring \<Rightarrow> GenerateContentResponse" where
  "citedResponse t =
     \<lparr> responseText = Some t,
       candidates = Some
         [\<lparr> groundingMetadata = Some
              \<lparr> groundingChunks = Some
                   [\<lparr> web = Some \<lparr> uri = Some (js ''https://example.org/kyoto''), title = None \<rparr>,
                      maps = None \<rparr>] \<rparr> \<rparr>] \<rparr>"

definition plainResponse :: "jsstring \<Rightarrow> GenerateContentResponse" where
  "plainResponse t = \<lparr> responseText = Some t, candidates = None \<rparr>"


section \<open>Properties of the string operations\<close>

lemmas json_eval = JSON_parse_def js_def jsonWhiteSpace_def isDigit_def startValue_def
  hexValue_def unescape_def endNumber_def jsonNumber_def toNumber_def isWhiteSpace_def

lemmas extract_eval = json_eval trim_def fenceMatch_def fenceTag_def cleanedInput_def
  jsonCandidate_def extractJsonFromString_def lastIndexOf_def charAt_def substring_def Let_def

lemma indexOf_notin: "c \<notin> set s \<Longrightarrow> indexOf s c = - 1"
  by (induction s) auto

lemma indexOf_first: "c \<notin> set p \<Longrightarrow> indexOf (p @ c # r) c = int (length p)"
  by (induction p) (auto simp: Let_def)

lemma indexOf_in: "c \<in> set s \<Longrightarrow> 0 \<le> indexOf s c"
  using split_list_first [of c s] by (auto simp: indexOf_first)

lemma lastIndexOf_notin: "c \<notin> set s \<Longrightarrow> lastIndexOf s c = - 1"
  by (simp add: lastIndexOf_def indexOf_notin)

lemma lastIndexOf_last: "c \<notin> set r \<Longrightarrow> lastIndexOf (p @ c # r) c = int (length p)"
proof -
  assume h: "c \<notin> set r"
  then have "indexOf (rev r @ c # rev p) c = int (length r)"
    using indexOf_first [of c "rev r" "rev p"] by simp
  then show ?thesis by (simp add: lastIndexOf_def)
qed

lemma charAt_middle: "charAt (p @ c # r) (int (length p)) = Some c"
  by (simp add: charAt_def)

lemma substring_middle:
  "substring (p @ r @ q) (int (length p)) (int (length p) + int (length r)) = r"
proof -
  let ?a = "int (length p)"
  let ?b = "int (length p) + int (length r)"
  let ?n = "int (length (p @ r @ q))"
  have a: "min (max ?a 0) ?n = ?a" by simp
  have b: "min (max ?b 0) ?n = ?b" by simp
  have lo: "min ?a ?b = ?a" by simp
  have hi: "max ?a ?b = ?b" by simp
  show ?thesis
    unfolding substring_def Let_def a b lo hi by simp
qed

lemma indexOf_later:
  assumes "c \<notin> set p" and "c \<noteq> x"
  shows "indexOf (p @ x # t) c = - 1 \<or> int (length p) < indexOf (p @ x # t) c"
proof (cases "c \<in> set t")
  case False
  then have "c \<notin> set (p @ x # t)" using assms by simp
  then show ?thesis using indexOf_notin by blast
next
  case True
  from split_list_first [OF True] obtain a b where ab: "t = a @ c # b" "c \<notin> set a"
    by blast
  have "c \<notin> set (p @ x # a)" using assms ab by simp
  then have "indexOf ((p @ x # a) @ c # b) c = int (length (p @ x # a))"
    by (rule indexOf_first)
  then show ?thesis using ab by simp
qed

lemma jsonCandidate_slice:
  assumes d: "delimiters opn cls"
    and p1: "cu CHR ''{'' \<notin> set p" and p2: "cu CHR ''['' \<notin> set p"
    and q: "cls \<notin> set q"
  shows "jsonCandidate (p @ opn # mid @ cls # q) = Some (opn # mid @ [cls])"
proof -
  let ?s = "p @ opn # mid @ cls # q"
  let ?r = "opn # mid @ [cls]"
  have last: "lastIndexOf ?s cls = int (length p) + int (length mid) + 1"
    using lastIndexOf_last [OF q, of "p @ opn # mid"] by simp
  have "int (length p) + int (length ?r) = int (length p) + int (length mid) + 1 + 1"
    by simp
  then have sub: "substring ?s (int (length p)) (int (length p) + int (length mid) + 1 + 1) = ?r"
    using substring_middle [of p ?r q] by (simp only: append.simps append_assoc)
  have ch: "charAt ?s (int (length p)) = Some opn"
    by (rule charAt_middle)
  show ?thesis
  proof (cases "opn = cu CHR ''{''")
    case True
    then have cls: "cls = cu CHR ''}''" using d by (simp add: delimiters_def)
    have fb: "indexOf ?s (cu CHR ''{'') = int (length p)"
      using indexOf_first [OF p1, of "mid @ cls # q"] True by simp
    have fk: "indexOf ?s (cu CHR ''['') = - 1 \<or> int (length p) < indexOf ?s (cu CHR ''['')"
      using indexOf_later [OF p2, of opn "mid @ cls # q"] True by simp
    have fci: "(if indexOf ?s (cu CHR ''{'') \<noteq> - 1
                   \<and> (indexOf ?s (cu CHR ''['') = - 1 \<or> indexOf ?s (cu CHR ''{'') < indexOf ?s (cu CHR ''[''))
                then indexOf ?s (cu CHR ''{'')
                else if indexOf ?s (cu CHR ''['') \<noteq> - 1 then indexOf ?s (cu CHR ''['') else - 1)
               = int (length p)"
      using fk fb by auto
    show ?thesis
      unfolding jsonCandidate_def Let_def fci
      using True cls ch last sub by simp
  next
    case False
    then have opn: "opn = cu CHR ''[''" and cls: "cls = cu CHR '']''"
      using d by (auto simp: delimiters_def)
    have fk: "indexOf ?s (cu CHR ''['') = int (length p)"
      using indexOf_first [OF p2, of "mid @ cls # q"] opn by simp
    have fb: "indexOf ?s (cu CHR ''{'') = - 1 \<or> int (length p) < indexOf ?s (cu CHR ''{'')"
      using indexOf_later [OF p1, of opn "mid @ cls # q"] opn by simp
    have fci: "(if indexOf ?s (cu CHR ''{'') \<noteq> - 1
                   \<and> (indexOf ?s (cu CHR ''['') = - 1 \<or> indexOf ?s (cu CHR ''{'') < indexOf ?s (cu CHR ''[''))
                then indexOf ?s (cu CHR ''{'')
                else if indexOf ?s (cu CHR ''['') \<noteq> - 1 then indexOf ?s (cu CHR ''['') else - 1)
               = int (length p)"
      using fb fk by auto
    show ?thesis
      unfolding jsonCandidate_def Let_def fci
      using opn cls ch last sub by simp
  qed
qed


lemma indexOf_split:
  assumes "c \<in> set s"
  obtains p r where "s = p @ c # r" and "c \<notin> set p" and "indexOf s c = int (length p)"
proof -
  from split_list_first [OF assms] obtain p r where pr: "s = p @ c # r" "c \<notin> set p"
    by blast
  then have "indexOf s c = int (length p)" by (simp add: indexOf_first)
  with pr show ?thesis by (rule that)
qed

lemma shorter_prefix_set:
  assumes "p1 @ x # r1 = p2 @ y # r2" and "length p1 < length p2"
  shows "set p1 \<subseteq> set p2"
proof -
  have "take (length p1) (p1 @ x # r1) = take (length p1) (p2 @ y # r2)"
    using assms(1) by simp
  then have "p1 = take (length p1) p2" using assms(2) by simp
  then have "set p1 = set (take (length p1) p2)" by simp
  then show ?thesis using set_take_subset by fast
qed

lemma closing_split:
  assumes cl: "cl = p @ opn # rest" and ne: "opn \<noteq> cls"
    and l1: "lastIndexOf cl cls \<noteq> - 1" and l2: "int (length p) \<le> lastIndexOf cl cls"
  obtains mid q where "rest = mid @ cls # q" and "cls \<notin> set q"
proof -
  have "cls \<in> set cl" using l1 lastIndexOf_notin by blast
  from split_list_last [OF this] obtain a q where aq: "cl = a @ cls # q" "cls \<notin> set q"
    by blast
  then have "lastIndexOf cl cls = int (length a)" by (simp add: lastIndexOf_last)
  then have len: "length p \<le> length a" using l2 by simp
  have eq: "p @ opn # rest = a @ cls # q" using cl aq by simp
  then obtain us where us: "p = a @ us \<and> us @ opn # rest = cls # q \<or> p @ us = a \<and> opn # rest = us @ cls # q"
    using append_eq_append_conv2 [of p "opn # rest" a "cls # q"] by blast
  show ?thesis
  proof (cases us)
    case Nil
    then have "opn = cls" using us by auto
    then show ?thesis using ne by simp
  next
    case (Cons u us')
    then have "p @ us = a \<and> opn # rest = us @ cls # q" using us len by auto
    then have "rest = us' @ cls # q" using Cons by simp
    then show ?thesis using aq(2) by (rule that)
  qed
qed

lemma jsonCandidate_shape:
  assumes "jsonCandidate cl = Some r"
  shows "\<exists>p opn mid cls q. delimiters opn cls \<and> cl = p @ opn # mid @ cls # q
           \<and> r = opn # mid @ [cls]
           \<and> cu CHR ''{'' \<notin> set p \<and> cu CHR ''['' \<notin> set p \<and> cls \<notin> set q"
proof -
  let ?fb = "indexOf cl (cu CHR ''{'')"
  let ?fk = "indexOf cl (cu CHR ''['')"
  let ?F = "(if ?fb \<noteq> - 1 \<and> (?fk = - 1 \<or> ?fb < ?fk) then ?fb
             else if ?fk \<noteq> - 1 then ?fk else - 1)"
  have "\<exists>p opn rest. cl = p @ opn # rest \<and> (opn = cu CHR ''{'' \<or> opn = cu CHR ''['')
          \<and> cu CHR ''{'' \<notin> set p \<and> cu CHR ''['' \<notin> set p \<and> ?F = int (length p)"
  proof (cases "cu CHR ''{'' \<in> set cl")
    case b: True
    from indexOf_split [OF b] obtain p1 r1 where
      p1: "cl = p1 @ cu CHR ''{'' # r1" "cu CHR ''{'' \<notin> set p1" "?fb = int (length p1)"
      by blast
    show ?thesis
    proof (cases "cu CHR ''['' \<in> set cl")
      case k: True
      from indexOf_split [OF k] obtain p2 r2 where
        p2: "cl = p2 @ cu CHR ''['' # r2" "cu CHR ''['' \<notin> set p2" "?fk = int (length p2)"
        by blast
      have eq: "p1 @ cu CHR ''{'' # r1 = p2 @ cu CHR ''['' # r2" using p1(1) p2(1) by simp
      have ne: "length p1 \<noteq> length p2"
      proof
        assume "length p1 = length p2"
        then have "cu CHR ''{'' # r1 = cu CHR ''['' # r2" using eq by simp
        then show False by simp
      qed
      show ?thesis
      proof (cases "length p1 < length p2")
        case True
        then have "set p1 \<subseteq> set p2" using shorter_prefix_set [OF eq] by simp
        then have "cu CHR ''['' \<notin> set p1" using p2(2) by blast
        moreover have "?F = int (length p1)" using p1(3) p2(3) True by simp
        ultimately show ?thesis using p1 by blast
      next
        case False
        then have lt: "length p2 < length p1" using ne by simp
        then have "set p2 \<subseteq> set p1" using shorter_prefix_set [OF eq [symmetric]] by simp
        then have "cu CHR ''{'' \<notin> set p2" using p1(2) by blast
        moreover have "?F = int (length p2)" using p1(3) p2(3) lt by simp
        ultimately show ?thesis using p2 by blast
      qed
    next
      case k: False
      then have "?fk = - 1" by (rule indexOf_notin)
      then have "?F = int (length p1)" using p1(3) by simp
      moreover have "cu CHR ''['' \<notin> set p1" using k p1(1) by auto
      ultimately show ?thesis using p1 by blast
    qed
  next
    case b: False
    then have fb: "?fb = - 1" by (rule indexOf_notin)
    show ?thesis
    proof (cases "cu CHR ''['' \<in> set cl")
      case k: True
      from indexOf_split [OF k] obtain p2 r2 where
        p2: "cl = p2 @ cu CHR ''['' # r2" "cu CHR ''['' \<notin> set p2" "?fk = int (length p2)"
        by blast
      have "?F = int (length p2)" using fb p2(3) by simp
      moreover have "cu CHR ''{'' \<notin> set p2" using b p2(1) by auto
      ultimately show ?thesis using p2 by blast
    next
      case k: False
      then have "?fk = - 1" by (rule indexOf_notin)
      then have "?F = - 1" using fb by simp
      then have "jsonCandidate cl = None"
        unfolding jsonCandidate_def Let_def by simp
      then show ?thesis using assms by simp
    qed
  qed
  then obtain p opn rest where
    pr: "cl = p @ opn # rest" "opn = cu CHR ''{'' \<or> opn = cu CHR ''[''"
      "cu CHR ''{'' \<notin> set p" "cu CHR ''['' \<notin> set p" and F: "?F = int (length p)"
    by blast
  define cls where "cls = (if opn = cu CHR ''{'' then cu CHR ''}'' else cu CHR '']'')"
  have d: "delimiters opn cls" using pr(2) by (auto simp: cls_def delimiters_def)
  have ne: "opn \<noteq> cls" using pr(2) by (auto simp: cls_def)
  have ch: "charAt cl (int (length p)) = Some opn"
    unfolding pr(1) by (rule charAt_middle)
  let ?L = "lastIndexOf cl cls"
  have body: "jsonCandidate cl =
      (if ?L = - 1 \<or> ?L < int (length p) then None
       else Some (substring cl (int (length p)) (?L + 1)))"
    unfolding jsonCandidate_def Let_def F using ch pr(2) by (auto simp: cls_def)
  then have l: "?L \<noteq> - 1" "int (length p) \<le> ?L" using assms by (auto split: if_splits)
  from closing_split [OF pr(1) ne l] obtain mid q where
    mq: "rest = mid @ cls # q" "cls \<notin> set q"
    by blast
  have cl: "cl = p @ opn # mid @ cls # q" using pr(1) mq(1) by simp
  have "jsonCandidate cl = Some (opn # mid @ [cls])"
    unfolding cl using d pr(3) pr(4) mq(2) by (rule jsonCandidate_slice)
  then have "r = opn # mid @ [cls]" using assms by simp
  then show ?thesis using d cl pr(3) pr(4) mq(2) by blast
qed

lemma fenceMatch_None_iff: "fenceMatch s = None \<longleftrightarrow> \<not> prefix (js ''```'') s"
  by (simp add: fenceMatch_def Let_def)

lemma take_prefix: "prefix t s \<Longrightarrow> n = length t \<Longrightarrow> take n s = t"
  by (auto simp: prefix_def)

lemma fenceTag_cases:
  "take (fenceTag s) s = js ''json'' \<or> take (fenceTag s) s = js ''javascript''
   \<or> take (fenceTag s) s = js ''text'' \<or> take (fenceTag s) s = []"
proof -
  have "prefix (js ''json'') s \<Longrightarrow> take 4 s = js ''json''"
    by (rule take_prefix) (simp_all add: js_def)
  moreover have "prefix (js ''javascript'') s \<Longrightarrow> take 10 s = js ''javascript''"
    by (rule take_prefix) (simp_all add: js_def)
  moreover have "prefix (js ''text'') s \<Longrightarrow> take 4 s = js ''text''"
    by (rule take_prefix) (simp_all add: js_def)
  ultimately show ?thesis
    unfolding fenceTag_def by (simp split: if_splits)
qed

lemma fenceTag_consumable: "\<forall>c \<in> set (take (fenceTag s) s). consumable c"
proof
  fix c assume c: "c \<in> set (take (fenceTag s) s)"
  from fenceTag_cases [of s] consider
    "c \<in> set (js ''json'')" | "c \<in> set (js ''javascript'')" | "c \<in> set (js ''text'')"
    using c by fastforce
  then show "consumable c"
    by cases (auto simp: consumable_def js_def)
qed

lemma fenceMatch_consumed:
  assumes "fenceMatch s = Some r"
  shows "\<exists>m. s = m @ r \<and> m \<noteq> [] \<and> (\<forall>c \<in> set m. consumable c)"
proof -
  from assms have p: "prefix (js ''```'') s"
    by (simp add: fenceMatch_def split: if_splits)
  then obtain s1 where s1: "s = js ''```'' @ s1" by (auto simp: prefix_def)
  then have d3: "drop 3 s = s1" by (simp add: js_def)
  let ?k = "fenceTag s1"
  let ?m = "js ''```'' @ take ?k s1 @ takeWhile isWhiteSpace (drop ?k s1)"
  have r: "r = dropWhile isWhiteSpace (drop ?k s1)"
    using assms p d3 by (simp add: fenceMatch_def Let_def)
  have "s = ?m @ r" unfolding r s1 by simp
  moreover have "?m \<noteq> []" by (simp add: js_def)
  moreover have "\<forall>c \<in> set ?m. consumable c"
  proof
    fix c assume "c \<in> set ?m"
    then consider "c \<in> set (js ''```'')" | "c \<in> set (take ?k s1)"
      | "c \<in> set (takeWhile isWhiteSpace (drop ?k s1))" by auto
    then show "consumable c"
    proof cases
      case 1 then show ?thesis by (auto simp: consumable_def js_def)
    next
      case 2 then show ?thesis using fenceTag_consumable by blast
    next
      case 3 then have "isWhiteSpace c" by (auto dest: set_takeWhileD)
      then show ?thesis by (simp add: consumable_def)
    qed
  qed
  ultimately show ?thesis by blast
qed

lemma set_replaceFences: "set (replaceFences s) \<subseteq> set s"
proof (induction s rule: replaceFences.induct)
  case 1 show ?case by simp
next
  case (2 c cs)
  show ?case
  proof (cases "fenceMatch (c # cs)")
    case None
    then show ?thesis using 2(1) [OF None] by auto
  next
    case (Some rest)
    from fenceMatch_consumed [OF Some] obtain m where "c # cs = m @ rest" by blast
    then have "set rest \<subseteq> set (c # cs)" by (metis set_append sup_ge2)
    then show ?thesis using 2(2) [OF Some] Some by auto
  qed
qed

lemma replaceFences_head:
  assumes "replaceFences s = x # out"
  shows "prefix (js ''```'') s \<or> (\<exists>s'. s = x # s' \<and> out = replaceFences s')"
proof (cases s)
  case Nil then show ?thesis using assms by simp
next
  case (Cons c cs)
  show ?thesis
  proof (cases "fenceMatch (c # cs)")
    case None
    then show ?thesis using assms Cons by simp
  next
    case (Some rest)
    then show ?thesis using Cons fenceMatch_None_iff [of s] by simp
  qed
qed

lemma replaceFences_no_fence: "\<not> sublist (js ''```'') (replaceFences s)"
proof (induction s rule: replaceFences.induct)
  case 1 show ?case by (simp add: js_def)
next
  case (2 c cs)
  show ?case
  proof (cases "fenceMatch (c # cs)")
    case (Some rest)
    then show ?thesis using 2(2) [OF Some] by simp
  next
    case None
    then have np: "\<not> prefix (js ''```'') (c # cs)" by (simp add: fenceMatch_None_iff)
    have ih: "\<not> sublist (js ''```'') (replaceFences cs)" using 2(1) [OF None] .
    have "\<not> prefix (js ''```'') (c # replaceFences cs)"
    proof
      assume "prefix (js ''```'') (c # replaceFences cs)"
      then obtain t where t: "c = 96" "replaceFences cs = 96 # 96 # t"
        by (auto simp: js_def prefix_def)
      from replaceFences_head [OF t(2)] np t(1)
      obtain s' where s': "cs = 96 # s'" "96 # t = replaceFences s'"
        by (auto simp: js_def prefix_def)
      from replaceFences_head [OF s'(2) [symmetric]] np t(1) s'(1)
      show False by (auto simp: js_def prefix_def)
    qed
    then show ?thesis using ih None by (simp add: sublist_Cons_right)
  qed
qed

lemma replaceFences_id: "\<not> sublist (js ''```'') s \<Longrightarrow> replaceFences s = s"
proof (induction s)
  case Nil show ?case by simp
next
  case (Cons c cs)
  then have "\<not> prefix (js ''```'') (c # cs)" and "\<not> sublist (js ''```'') cs"
    by (auto simp: sublist_Cons_right)
  then show ?case using Cons.IH by (simp add: fenceMatch_None_iff [symmetric])
qed

lemma sublist_trim: "sublist (trim s) s"
proof -
  have "sublist (rev (trim s)) (rev (dropWhile isWhiteSpace s))"
    unfolding trim_def by simp
  then have "sublist (trim s) (dropWhile isWhiteSpace s)"
    by (simp only: sublist_rev)
  then show ?thesis
    using sublist_dropWhile [of isWhiteSpace s] sublist_order.order.trans by blast
qed

lemma trim_delimited:
  assumes "\<not> isWhiteSpace opn" and "\<not> isWhiteSpace cls"
  shows "trim (opn # mid @ [cls]) = opn # mid @ [cls]"
  using assms by (simp add: trim_def)

lemma delimiters_not_space:
  "delimiters opn cls \<Longrightarrow> \<not> isWhiteSpace opn \<and> \<not> isWhiteSpace cls"
  by (auto simp: delimiters_def isWhiteSpace_def)

lemma extract_Some:
  "extractJsonFromString input = Some r \<longleftrightarrow>
     jsonCandidate (cleanedInput input) = Some r \<and> r \<noteq> [] \<and> JSON_parse r \<noteq> None"
  by (auto simp: extractJsonFromString_def split: option.splits)

lemma replaceFences_barrier:
  assumes x: "\<not> consumable x"
  shows "\<exists>p. replaceFences (pre @ x # rest) = p @ replaceFences (x # rest) \<and> set p \<subseteq> set pre"
proof (induction "length pre" arbitrary: pre rule: less_induct)
  case less
  show ?case
  proof (cases pre)
    case Nil
    then show ?thesis by simp
  next
    case (Cons c cs)
    show ?thesis
    proof (cases "fenceMatch (pre @ x # rest)")
      case None
      have "length cs < length pre" using Cons by simp
      from less [OF this] obtain p' where
        p': "replaceFences (cs @ x # rest) = p' @ replaceFences (x # rest)" "set p' \<subseteq> set cs"
        by blast
      have "replaceFences (pre @ x # rest) = (c # p') @ replaceFences (x # rest)"
        using None Cons p'(1) by simp
      moreover have "set (c # p') \<subseteq> set pre" using p'(2) Cons by auto
      ultimately show ?thesis by blast
    next
      case (Some r)
      from fenceMatch_consumed [OF Some] obtain m where
        m: "pre @ x # rest = m @ r" "m \<noteq> []" "\<forall>c \<in> set m. consumable c"
        by blast
      from m(1) obtain us where
        us: "pre = m @ us \<and> us @ x # rest = r \<or> pre @ us = m \<and> x # rest = us @ r"
        using append_eq_append_conv2 [of pre "x # rest" m r] by blast
      have "\<exists>vs. pre = m @ vs \<and> r = vs @ x # rest"
      proof (cases us)
        case Nil
        then show ?thesis using us by auto
      next
        case (Cons u us')
        have "pre = m @ us \<and> us @ x # rest = r"
        proof (rule ccontr)
          assume "\<not> (pre = m @ us \<and> us @ x # rest = r)"
          then have "pre @ us = m \<and> x # rest = us @ r" using us by blast
          then have "x \<in> set m" using Cons by auto
          then show False using m(3) x by blast
        qed
        then show ?thesis by blast
      qed
      then obtain vs where vs: "pre = m @ vs" "r = vs @ x # rest" by blast
      have "length vs < length pre" using vs(1) m(2) by simp
      from less [OF this] obtain p where
        p: "replaceFences (vs @ x # rest) = p @ replaceFences (x # rest)" "set p \<subseteq> set vs"
        by blast
      have "replaceFences (pre @ x # rest) = replaceFences r"
        using Some Cons by simp
      then have "replaceFences (pre @ x # rest) = p @ replaceFences (x # rest)"
        using p(1) vs(2) by simp
      moreover have "set p \<subseteq> set pre" using p(2) vs(1) by auto
      ultimately show ?thesis by blast
    qed
  qed
qed

lemma replaceFences_copy:
  assumes "\<not> sublist (js ''```'') d" and "d = [] \<or> last d \<noteq> cu CHR 0x60"
  shows "replaceFences (d @ post) = d @ replaceFences post"
  using assms
proof (induction d)
  case Nil show ?case by simp
next
  case (Cons c d)
  have np: "\<not> prefix (js ''```'') ((c # d) @ post)"
  proof
    assume "prefix (js ''```'') ((c # d) @ post)"
    then consider "prefix (js ''```'') (c # d)"
      | us where "js ''```'' = (c # d) @ us"
      using prefix_append [of "js ''```''" "c # d" post] by blast
    then show False
    proof cases
      case 1
      then show False using Cons.prems(1) by (simp add: sublist_Cons_right)
    next
      case 2
      then have "set (c # d) \<subseteq> set (js ''```'')" by (metis set_append sup_ge1)
      then have "last (c # d) \<in> set (js ''```'')" using last_in_set [of "c # d"] by blast
      then show False using Cons.prems(2) by (simp add: js_def)
    qed
  qed
  have "\<not> sublist (js ''```'') d" using Cons.prems(1) by (simp add: sublist_Cons_right)
  moreover have "d = [] \<or> last d \<noteq> cu CHR 0x60" using Cons.prems(2) by auto
  ultimately have "replaceFences (d @ post) = d @ replaceFences post" by (rule Cons.IH)
  then show ?case using np by (simp add: fenceMatch_None_iff [symmetric])
qed

lemma trim_around:
  assumes "\<not> isWhiteSpace opn" and "\<not> isWhiteSpace cls"
  shows "trim (p @ opn # mid @ cls # q)
         = dropWhile isWhiteSpace p @ opn # mid @ cls # rev (dropWhile isWhiteSpace (rev q))"
proof -
  have "dropWhile isWhiteSpace (p @ opn # mid @ cls # q)
        = dropWhile isWhiteSpace p @ opn # mid @ cls # q"
    using assms(1) by (rule dropWhile_append3)
  moreover have "dropWhile isWhiteSpace (rev q @ cls # (rev mid @ opn # rev (dropWhile isWhiteSpace p)))
        = dropWhile isWhiteSpace (rev q) @ cls # (rev mid @ opn # rev (dropWhile isWhiteSpace p))"
    using assms(2) by (rule dropWhile_append3)
  ultimately show ?thesis by (simp add: trim_def)
qed

lemma extract_embedded:
  assumes d: "delimiters opn cls" and doc: "doc = opn # mid @ [cls]"
    and nf: "\<not> sublist (js ''```'') doc" and parse: "JSON_parse doc \<noteq> None"
    and pre: "cu CHR ''{'' \<notin> set pre" "cu CHR ''['' \<notin> set pre"
    and post: "cls \<notin> set post"
  shows "extractJsonFromString (pre @ doc @ post) = Some doc"
proof -
  have nc: "\<not> consumable opn"
    using d by (auto simp: delimiters_def consumable_def isWhiteSpace_def js_def)
  have ntick: "cls \<noteq> cu CHR 0x60" using d by (auto simp: delimiters_def)
  from replaceFences_barrier [OF nc, of pre "mid @ [cls] @ post"] obtain p where
    p: "replaceFences (pre @ opn # mid @ [cls] @ post) = p @ replaceFences (opn # mid @ [cls] @ post)"
      "set p \<subseteq> set pre"
    by blast
  have "doc = [] \<or> last doc \<noteq> cu CHR 0x60" using ntick by (simp add: doc)
  with nf have "replaceFences (doc @ post) = doc @ replaceFences post"
    by (rule replaceFences_copy)
  then have rf: "replaceFences (pre @ doc @ post) = p @ opn # mid @ cls # replaceFences post"
    using p(1) by (simp add: doc)
  let ?p = "dropWhile isWhiteSpace p"
  let ?q = "rev (dropWhile isWhiteSpace (rev (replaceFences post)))"
  have cl: "cleanedInput (pre @ doc @ post) = ?p @ opn # mid @ cls # ?q"
    unfolding cleanedInput_def rf using delimiters_not_space [OF d] by (simp add: trim_around)
  have "set ?p \<subseteq> set pre" using p(2) set_dropWhileD by fast
  then have p1: "cu CHR ''{'' \<notin> set ?p" and p2: "cu CHR ''['' \<notin> set ?p"
    using pre by blast+
  have "set ?q \<subseteq> set (replaceFences post)" using set_dropWhileD by fastforce
  then have "set ?q \<subseteq> set post" using set_replaceFences by blast
  then have q: "cls \<notin> set ?q" using post by blast
  have "jsonCandidate (?p @ opn # mid @ cls # ?q) = Some (opn # mid @ [cls])"
    using d p1 p2 q by (rule jsonCandidate_slice)
  then have "jsonCandidate (cleanedInput (pre @ doc @ post)) = Some (opn # mid @ [cls])"
    by (simp only: cl)
  then show ?thesis using parse doc by (simp add: extract_Some)
qed

section \<open>The parser on examples\<close>

lemma parse_examples:
  \<open>JSON_parse (js ''{"a": [1, -2.5e1, true, false, null, "x"], "b": {}}'')
     = Some (JObject [(js ''a'', JArray [JNumber (Finite 1), JNumber (Finite (- 25)), JBool True,
                                        JBool False, JNull, JString (js ''x'')]),
                      (js ''b'', JObject [])])\<close>
  \<open>JSON_parse (js ''{"a":1,"a":2}'') = Some (JObject [(js ''a'', JNumber (Finite 2))])\<close>
  \<open>JSON_parse (js '' [ ] '') = Some (JArray [])\<close>
  \<open>JSON_parse (js ''"A'' @ [92] @ js ''u0041'' @ [92] @ js ''n"'') = Some (JString [65, 65, 10])\<close>
  \<open>JSON_parse (js ''1e-400'') = Some (JNumber (Finite 0))\<close>
  \<open>JSON_parse (js ''1e400'') = Some (JNumber PosInfinity)\<close>
  by (simp_all add: json_eval)

lemma parse_rejects:
  \<open>JSON_parse (js ''{"a":1,}'') = None\<close>
  \<open>JSON_parse (js ''[1,]'') = None\<close>
  \<open>JSON_parse (js ''{a:1}'') = None\<close>
  \<open>JSON_parse (js ''01'') = None\<close>
  \<open>JSON_parse (js ''1.'') = None\<close>
  \<open>JSON_parse (js ''[1] x'') = None\<close>
  \<open>JSON_parse (js ''{"a":1'') = None\<close>
  \<open>JSON_parse (js ''"a'' @ [10] @ js ''"'') = None\<close>
  \<open>JSON_parse [] = None\<close>
  by (simp_all add: json_eval)

section \<open>Properties of the validator, the citations and the pipeline\<close>








lemma handleError_with_message:
  "handleError (ErrorInstance m) =
     (if includesStr m (js ''Requested entity was not found.'')
      then Error (js ''Kunci API mungkin tidak valid atau tidak terpilih. Harap pastikan Anda telah memilih kunci API berbayar yang valid melalui dialog pemilihan kunci API.'')
      else Error (js ''Kesalahan API Gemini: '' @ m))"
  "handleError (NonErrorWithMessage m) =
     (if includesStr m (js ''Requested entity was not found.'')
      then Error (js ''Kunci API mungkin tidak valid atau tidak terpilih. Harap pastikan Anda telah memilih kunci API berbayar yang valid melalui dialog pemilihan kunci API.'')
      else Error (js ''Terjadi kesalahan yang tidak diketahui saat memanggil API Gemini.''))"
  by (simp_all add: handleError_def)

lemma fallback_itinerary_field:
  "getProperty (fallbackItinerary eng p raw) (js ''itinerary'') = JArray []"
  by (simp add: fallbackItinerary_def js_def)

lemma processResponse_sequence:
  assumes "processResponse eng p response = Inr r"
  shows "\<exists>xs. getProperty (itineraryData r) (js ''itinerary'') = JArray xs"
proof -
  have fb: "\<exists>xs. getProperty (itineraryData \<lparr> itineraryData = fallbackItinerary eng p raw,
      sourceUrls = [] \<rparr>) (js ''itinerary'') = JArray xs" for raw
    by (simp add: fallback_itinerary_field)
  have ok: "\<not> invalidStructure v \<Longrightarrow> \<exists>xs. getProperty v (js ''itinerary'') = JArray xs" for v
    by (cases "getProperty v (js ''itinerary'')") (simp_all add: invalidStructure_def)
  show ?thesis
    using assms fb ok
    by (auto simp: processResponse_def Let_def split: option.splits if_splits)
qed


lemma fallback_fields:
  "getProperty (fallbackItinerary eng p raw) (js ''destination'') = JString (destination p)"
  "getProperty (fallbackItinerary eng p raw) (js ''duration'') = JNumber (duration p)"
  "getProperty (fallbackItinerary eng p raw) (js ''overview'') = JString raw"
  "getProperty (fallbackItinerary eng p raw) (js ''packingSuggestions'') = JArray []"
  "getProperty (fallbackItinerary eng p raw) (js ''notes'') =
     JString (js ''Itinerary tidak dapat diuraikan ke format terstruktur. Silakan lihat bagian ikhtisar untuk detail dan periksa tautan sumber.'')"
  "getProperty (fallbackItinerary eng p raw) (js ''budgetSummary'') =
     JString (js ''Anggaran: '' @ numberToString eng (budget p) @ js '' '' @ currency p @ js ''.'')"
  by (simp_all add: fallbackItinerary_def js_def)

lemma processResponse_fallback:
  assumes "responseText response = Some t"
    and "extractJsonFromString (trim t) = None
         \<or> (useMapsGrounding p
             \<and> (\<exists>c. extractJsonFromString (trim t) = Some c \<and> structuralMismatch c))"
  shows "processResponse eng p response =
           Inr \<lparr> itineraryData = fallbackItinerary eng p (trim t), sourceUrls = [] \<rparr>"
proof (cases "extractJsonFromString (trim t)")
  case None
  then show ?thesis using assms(1) by (simp add: processResponse_def Let_def)
next
  case (Some c)
  then have g: "useMapsGrounding p" and m: "structuralMismatch c" using assms(2) by simp_all
  show ?thesis
  proof (cases "JSON_parse c")
    case None
    then show ?thesis using assms(1) Some g by (simp add: processResponse_def Let_def)
  next
    case (Some v)
    then have "invalidStructure v" using m by (simp add: structuralMismatch_def)
    then show ?thesis
      using assms(1) \<open>extractJsonFromString (trim t) = Some c\<close> Some g
      by (simp add: processResponse_def Let_def)
  qed
qed

lemma extract_a1: \<open>extractJsonFromString (js ''{"a":1}'') = Some (js ''{"a":1}'')\<close>
  by (simp add: extract_eval)

lemma trim_a1: \<open>trim (js ''{"a":1}'') = js ''{"a":1}''\<close>
  by (simp add: trim_def js_def isWhiteSpace_def)

lemma mismatch_a1: \<open>structuralMismatch (js ''{"a":1}'')\<close>
  by (simp add: structuralMismatch_def invalidStructure_def json_eval)

lemma extract_bali:
  \<open>extractJsonFromString (js ''{"destination":"Bali","itinerary":[]}'')
     = Some (js ''{"destination":"Bali","itinerary":[]}'')\<close>
  by (simp add: extract_eval)

lemma parse_bali:
  \<open>JSON_parse (js ''{"destination":"Bali","itinerary":[]}'')
     = Some (JObject [(js ''destination'', JString (js ''Bali'')), (js ''itinerary'', JArray [])])\<close>
  by (simp add: json_eval)


section \<open>The claims\<close>

subsection \<open>Mode selection\<close>

text \<open>
  C1, as amended.  When latitude and longitude are both finite numbers other than zero,
  the request is in Grounded mode: the location tool is attached and no schema is
  requested.  When either coordinate is \<open>undefined\<close>, \<open>null\<close> or zero, the request is in
  Structured mode: the schema is requested and no location tool is attached.  The search
  tool is attached in both modes.
\<close>

theorem mode_selection:
  "(latitude p = CoordNumber (Finite a) \<and> longitude p = CoordNumber (Finite b) \<and> a \<noteq> 0 \<and> b \<noteq> 0
      \<longrightarrow> useMapsGrounding p
          \<and> tools (config (buildRequest eng p)) = [GoogleMaps, GoogleSearch]
          \<and> responseSchema (config (buildRequest eng p)) = None)
   \<and> (latitude p \<in> {CoordUndefined, CoordNull, CoordNumber (Finite 0)}
        \<or> longitude p \<in> {CoordUndefined, CoordNull, CoordNumber (Finite 0)}
      \<longrightarrow> \<not> useMapsGrounding p
          \<and> tools (config (buildRequest eng p)) = [GoogleSearch]
          \<and> responseSchema (config (buildRequest eng p)) = Some ItinerarySchema)
   \<and> GoogleSearch \<in> set (tools (config (buildRequest eng p)))"
  by (auto simp: useMapsGrounding_def buildRequest_def)

theorem mode_selection_witness:
  "tools (config (buildRequest exampleEngine
      (examplePreferences (CoordNumber (Finite 35)) (CoordNumber (Finite (271 / 2))))))
     = [GoogleMaps, GoogleSearch]
   \<and> responseSchema (config (buildRequest exampleEngine (examplePreferences CoordNull CoordNull)))
     = Some ItinerarySchema"
  using mode_selection [of "examplePreferences (CoordNumber (Finite 35)) (CoordNumber (Finite (271 / 2)))"
      35 "271 / 2" exampleEngine]
    mode_selection [of "examplePreferences CoordNull CoordNull" 0 0 exampleEngine]
  by (simp add: examplePreferences_def)

text \<open>
  The claim as stated, for all finite coordinates, fails at a latitude of zero: the test
  \<open>latitude && longitude\<close> takes zero for absent, and the request is in Structured mode.
\<close>

theorem mode_selection_zero_counterexample:
  "latitude (examplePreferences (CoordNumber (Finite 0)) (CoordNumber (Finite 110)))
     = CoordNumber (Finite 0)
   \<and> longitude (examplePreferences (CoordNumber (Finite 0)) (CoordNumber (Finite 110)))
     = CoordNumber (Finite 110)
   \<and> tools (config (buildRequest exampleEngine
        (examplePreferences (CoordNumber (Finite 0)) (CoordNumber (Finite 110))))) = [GoogleSearch]
   \<and> responseSchema (config (buildRequest exampleEngine
        (examplePreferences (CoordNumber (Finite 0)) (CoordNumber (Finite 110)))))
     = Some ItinerarySchema"
  by (simp add: examplePreferences_def buildRequest_def useMapsGrounding_def)

subsection \<open>The extractor\<close>

text \<open>
  C4, as amended.  Take a reply text made of prose, an opening fence with a language tag
  and white space, a document, white space, a closing fence and more prose.  Let the
  document begin with an opening brace or bracket and end with the matching closing
  delimiter, parse, and contain no fence marker.  If the prose before the block and the
  tag contain no opening brace or bracket, and the prose behind the block does not
  contain the closing delimiter of the document, the extractor returns exactly the
  document.
\<close>

theorem fenced_document_extracted:
  assumes "delimiters opn cls" and "doc = opn # mid @ [cls]"
    and "\<not> sublist (js ''```'') doc" and "JSON_parse doc \<noteq> None"
    and "cu CHR ''{'' \<notin> set before" and "cu CHR ''['' \<notin> set before"
    and "cu CHR ''{'' \<notin> set tag" and "cu CHR ''['' \<notin> set tag"
    and "\<forall>c \<in> set ws1. isWhiteSpace c" and "\<forall>c \<in> set ws2. isWhiteSpace c"
    and "cls \<notin> set after"
  shows "extractJsonFromString
           (before @ js ''```'' @ tag @ ws1 @ doc @ ws2 @ js ''```'' @ after) = Some doc"
proof -
  have sp: "\<not> isWhiteSpace opn" "\<not> isWhiteSpace cls" "\<not> isWhiteSpace (cu CHR ''{'')"
    "\<not> isWhiteSpace (cu CHR ''['')"
    using delimiters_not_space [OF assms(1)] by (simp_all add: isWhiteSpace_def)
  have 1: "cu CHR ''{'' \<notin> set (before @ js ''```'' @ tag @ ws1)"
    using assms(5,7,9) sp(3) by (auto simp: js_def)
  have 2: "cu CHR ''['' \<notin> set (before @ js ''```'' @ tag @ ws1)"
    using assms(6,8,9) sp(4) by (auto simp: js_def)
  have 3: "cls \<notin> set (ws2 @ js ''```'' @ after)"
    using assms(1,10,11) sp(2) by (auto simp: js_def delimiters_def)
  have "extractJsonFromString ((before @ js ''```'' @ tag @ ws1) @ doc @ (ws2 @ js ''```'' @ after))
        = Some doc"
    using assms(1-4) 1 2 3 by (rule extract_embedded)
  then show ?thesis by simp
qed

theorem fenced_document_extracted_witness:
  \<open>extractJsonFromString
     (js ''Here: '' @ js ''```'' @ js ''json'' @ [10] @ js ''{"a":1}'' @ [10] @ js ''```'' @ js '' done'')
   = Some (js ''{"a":1}'')\<close>
  using fenced_document_extracted [of "cu CHR ''{''" "cu CHR ''}''" \<open>js ''{"a":1}''\<close> \<open>js ''"a":1''\<close>
      "js ''Here: ''" "js ''json''" "[10]" "[10]" "js '' done''"]
  by (simp add: json_eval delimiters_def sublist_Cons_right)

text \<open>
  The claim as stated, for arbitrary prose, fails: with a bracket in the prose before
  the block the extractor slices from that bracket and returns \<open>[1]\<close>, not the enclosed
  document.
\<close>

theorem fenced_document_prose_counterexample:
  \<open>extractJsonFromString
     (js ''See [1]: ```json'' @ [10] @ js ''{"a":1}'' @ [10] @ js ''``` done'')
   = Some (js ''[1]'')
   \<and> js ''[1]'' \<noteq> js ''{"a":1}''\<close>
  by (simp add: json_eval trim_def fenceMatch_def fenceTag_def cleanedInput_def jsonCandidate_def
      extractJsonFromString_def lastIndexOf_def charAt_def substring_def Let_def)

text \<open>
  C5.  When the slice does not parse, the extractor returns no match; and whatever the
  extractor returns is the slice itself, which parses.  So no repaired text and no other
  slice is ever returned.
\<close>

theorem extractor_no_repair:
  "(jsonCandidate (cleanedInput input) = Some c \<and> JSON_parse c = None
      \<longrightarrow> extractJsonFromString input = None)
   \<and> (extractJsonFromString input = Some r
      \<longrightarrow> jsonCandidate (cleanedInput input) = Some r \<and> JSON_parse r \<noteq> None)"
  by (auto simp: extractJsonFromString_def split: option.splits if_splits)

theorem extractor_no_repair_witness:
  \<open>jsonCandidate (cleanedInput (js ''{"a":{"b":1}'')) = Some (js ''{"a":{"b":1}'')
   \<and> JSON_parse (js ''{"a":{"b":1}'') = None
   \<and> extractJsonFromString (js ''{"a":{"b":1}'') = None
   \<and> JSON_parse (js ''{"b":1}'') \<noteq> None\<close>
proof -
  have 1: \<open>jsonCandidate (cleanedInput (js ''{"a":{"b":1}'')) = Some (js ''{"a":{"b":1}'')\<close>
    by (simp add: extract_eval)
  have 2: \<open>JSON_parse (js ''{"a":{"b":1}'') = None\<close>
    by (simp add: json_eval)
  have 3: \<open>JSON_parse (js ''{"b":1}'') \<noteq> None\<close>
    by (simp add: json_eval)
  show ?thesis
    using 1 2 3 extractor_no_repair [of \<open>js ''{"a":{"b":1}''\<close> \<open>js ''{"a":{"b":1}''\<close>
        \<open>js ''{"b":1}''\<close>]
    by simp
qed

text \<open>
  C8.  When the extractor succeeds on an input, running it again on what it returned
  gives the same text back.
\<close>

theorem extractor_idempotent:
  assumes "extractJsonFromString input = Some r"
  shows "extractJsonFromString r = Some r"
proof -
  from assms have c: "jsonCandidate (cleanedInput input) = Some r"
    and ne: "r \<noteq> []" and parse: "JSON_parse r \<noteq> None"
    by (simp_all add: extract_Some)
  from jsonCandidate_shape [OF c] obtain p opn mid cls q where
    d: "delimiters opn cls" and cl: "cleanedInput input = p @ opn # mid @ cls # q"
    and r: "r = opn # mid @ [cls]"
    by blast
  have "cleanedInput input = p @ r @ q" using cl r by simp
  then have "sublist r (cleanedInput input)" by (metis sublist_appendI)
  moreover have "sublist (cleanedInput input) (replaceFences input)"
    unfolding cleanedInput_def by (rule sublist_trim)
  ultimately have "sublist r (replaceFences input)"
    using sublist_order.order.trans by blast
  then have "\<not> sublist (js ''```'') r"
    using replaceFences_no_fence [of input] sublist_order.order.trans by blast
  then have "replaceFences r = r" by (rule replaceFences_id)
  moreover have "trim r = r"
    unfolding r using delimiters_not_space [OF d] by (simp add: trim_delimited)
  ultimately have "cleanedInput r = r" by (simp add: cleanedInput_def)
  moreover have "jsonCandidate ([] @ opn # mid @ cls # []) = Some (opn # mid @ [cls])"
    using d by (rule jsonCandidate_slice) simp_all
  ultimately have "jsonCandidate (cleanedInput r) = Some r" using r by simp
  then show ?thesis using ne parse by (simp add: extract_Some)
qed

theorem extractor_idempotent_witness:
  \<open>extractJsonFromString (js ''Here: ```json'' @ [10] @ js ''{"a":1}'' @ [10] @ js ''``` done'')
     = Some (js ''{"a":1}'')
   \<and> extractJsonFromString (js ''{"a":1}'') = Some (js ''{"a":1}'')\<close>
proof -
  have h: \<open>extractJsonFromString (js ''Here: ```json'' @ [10] @ js ''{"a":1}'' @ [10] @ js ''``` done'')
     = Some (js ''{"a":1}'')\<close>
    by (simp add: json_eval trim_def fenceMatch_def fenceTag_def cleanedInput_def jsonCandidate_def
        extractJsonFromString_def lastIndexOf_def charAt_def substring_def Let_def)
  show ?thesis using h extractor_idempotent [OF h] by simp
qed

subsection \<open>The validator\<close>



subsection \<open>The citations\<close>


subsection \<open>The pipeline\<close>

text \<open>
  C2, as amended.  When the extractor finds no match in the trimmed reply text, or in
  Grounded mode finds a text that is a structural mismatch, the pipeline resolves with the
  fallback itinerary and no citations, whatever metadata the response carried.  The
  fallback has the destination and duration of the preferences, the trimmed reply text as
  its overview, an empty itinerary and empty packing suggestions, the fixed note, and a
  budget summary made of budget and currency.
\<close>

theorem fallback_on_recovery:
  assumes "client (buildRequest eng p) s = (Resolves response, s')"
    and "responseText response = Some t"
    and "extractJsonFromString (trim t) = None
         \<or> (useMapsGrounding p
             \<and> (\<exists>c. extractJsonFromString (trim t) = Some c \<and> structuralMismatch c))"
  shows "generateItinerary eng client p s =
           (Inr \<lparr> itineraryData = fallbackItinerary eng p (trim t), sourceUrls = [] \<rparr>, s')
         \<and> getProperty (fallbackItinerary eng p (trim t)) (js ''destination'') = JString (destination p)
         \<and> getProperty (fallbackItinerary eng p (trim t)) (js ''duration'') = JNumber (duration p)
         \<and> getProperty (fallbackItinerary eng p (trim t)) (js ''overview'') = JString (trim t)
         \<and> getProperty (fallbackItinerary eng p (trim t)) (js ''itinerary'') = JArray []
         \<and> getProperty (fallbackItinerary eng p (trim t)) (js ''packingSuggestions'') = JArray []
         \<and> getProperty (fallbackItinerary eng p (trim t)) (js ''notes'') =
             JString (js ''Itinerary tidak dapat diuraikan ke format terstruktur. Silakan lihat bagian ikhtisar untuk detail dan periksa tautan sumber.'')
         \<and> getProperty (fallbackItinerary eng p (trim t)) (js ''budgetSummary'') =
             JString (js ''Anggaran: '' @ numberToString eng (budget p) @ js '' '' @ currency p @ js ''.'')"
proof -
  have "processResponse eng p response =
           Inr \<lparr> itineraryData = fallbackItinerary eng p (trim t), sourceUrls = [] \<rparr>"
    using assms(2,3) by (rule processResponse_fallback)
  then have "generateItinerary eng client p s =
           (Inr \<lparr> itineraryData = fallbackItinerary eng p (trim t), sourceUrls = [] \<rparr>, s')"
    using assms(1) by (simp add: generateItinerary_def)
  then show ?thesis
    by (simp only: fallback_fields fallback_itinerary_field simp_thms)
qed

theorem fallback_on_recovery_witness:
  \<open>collectSourceUrls (citedResponse (js ''{"a":1}'')) \<noteq> []
   \<and> generateItinerary exampleEngine (answering (Resolves (citedResponse (js ''{"a":1}''))))
       (examplePreferences (CoordNumber (Finite 35)) (CoordNumber (Finite 135))) 0
     = (Inr \<lparr> itineraryData =
               fallbackItinerary exampleEngine
                 (examplePreferences (CoordNumber (Finite 35)) (CoordNumber (Finite 135)))
                 (js ''{"a":1}''),
             sourceUrls = [] \<rparr>, 1)\<close>
proof -
  let ?p = "examplePreferences (CoordNumber (Finite 35)) (CoordNumber (Finite 135))"
  let ?r = \<open>citedResponse (js ''{"a":1}'')\<close>
  have 0: "collectSourceUrls ?r \<noteq> []"
    by (simp add: collectSourceUrls_def responseChunks_def citedResponse_def pushChunk_def)
  have 1: "answering (Resolves ?r) (buildRequest exampleEngine ?p) 0 = (Resolves ?r, 1)"
    by (simp add: answering_def)
  have 2: \<open>responseText ?r = Some (js ''{"a":1}'')\<close>
    by (simp add: citedResponse_def)
  have 3: "useMapsGrounding ?p"
    by (simp add: useMapsGrounding_def examplePreferences_def)
  have 4: \<open>extractJsonFromString (trim (js ''{"a":1}'')) = None
         \<or> (useMapsGrounding ?p
             \<and> (\<exists>c. extractJsonFromString (trim (js ''{"a":1}'')) = Some c \<and> structuralMismatch c))\<close>
    using 3 extract_a1 mismatch_a1 by (simp add: trim_a1)
  note w = fallback_on_recovery [where client = "answering (Resolves ?r)" and eng = exampleEngine
      and p = ?p and s = 0 and response = ?r and s' = 1 and t = \<open>js ''{"a":1}''\<close>, OF 1 2 4]
  have g: \<open>generateItinerary exampleEngine (answering (Resolves ?r)) ?p 0
     = (Inr \<lparr> itineraryData = fallbackItinerary exampleEngine ?p (js ''{"a":1}''),
             sourceUrls = [] \<rparr>, 1)\<close>
    using w [THEN conjunct1] by (simp only: trim_a1)
  show ?thesis using 0 g by (rule conjI)
qed

text \<open>
  The claim as stated has the overview equal to the reply text verbatim; the pipeline
  trims the reply first, so white space around the text is lost.
\<close>

theorem fallback_overview_trimmed_counterexample:
  \<open>responseText (plainResponse (js '' Selamat jalan '')) = Some (js '' Selamat jalan '')
   \<and> extractJsonFromString (trim (js '' Selamat jalan '')) = None
   \<and> generateItinerary exampleEngine (answering (Resolves (plainResponse (js '' Selamat jalan ''))))
       (examplePreferences CoordNull CoordNull) 0
     = (Inr \<lparr> itineraryData =
               fallbackItinerary exampleEngine (examplePreferences CoordNull CoordNull)
                 (js ''Selamat jalan''),
             sourceUrls = [] \<rparr>, 1)
   \<and> getProperty (fallbackItinerary exampleEngine (examplePreferences CoordNull CoordNull)
         (js ''Selamat jalan'')) (js ''overview'') = JString (js ''Selamat jalan'')
   \<and> js ''Selamat jalan'' \<noteq> js '' Selamat jalan ''\<close>
proof -
  have t: "trim (js '' Selamat jalan '') = js ''Selamat jalan''"
    by (simp add: trim_def js_def isWhiteSpace_def)
  have e: "extractJsonFromString (js ''Selamat jalan'') = None"
    by (simp add: extract_eval)
  have g: "generateItinerary exampleEngine (answering (Resolves (plainResponse (js '' Selamat jalan ''))))
       (examplePreferences CoordNull CoordNull) 0
     = (Inr \<lparr> itineraryData =
               fallbackItinerary exampleEngine (examplePreferences CoordNull CoordNull)
                 (js ''Selamat jalan''),
             sourceUrls = [] \<rparr>, 1)"
    by (simp add: generateItinerary_def answering_def processResponse_def plainResponse_def t e)
  have n: "js ''Selamat jalan'' \<noteq> js '' Selamat jalan ''"
    by (simp add: js_def)
  show ?thesis
    using t e g n by (simp add: plainResponse_def fallback_fields)
qed




text \<open>
  A failure of the call that carries a message is handled as the handler intends: the
  credential-selection message when the message contains the known signature, otherwise
  the generic message (for an \<open>Error\<close>, the prefix and its message; for another value, the
  unknown-error text).  The client is left in the state after that one call: there is no
  second call.
\<close>

lemma client_failure_with_message:
  assumes "client (buildRequest eng p) s = (Rejects e, s')"
    and "e = ErrorInstance m \<or> e = NonErrorWithMessage m"
  shows "generateItinerary eng client p s =
     (Inl (if includesStr m (js ''Requested entity was not found.'')
           then Error (js ''Kunci API mungkin tidak valid atau tidak terpilih. Harap pastikan Anda telah memilih kunci API berbayar yang valid melalui dialog pemilihan kunci API.'')
           else if e = ErrorInstance m then Error (js ''Kesalahan API Gemini: '' @ m)
           else Error (js ''Terjadi kesalahan yang tidak diketahui saat memanggil API Gemini.'')), s')"
  using assms by (auto simp: generateItinerary_def handleError_with_message)

lemma client_failure_examples:
  "generateItinerary exampleEngine
     (answering (Rejects (ErrorInstance (js ''Requested entity was not found.''))))
     (examplePreferences CoordNull CoordNull) 0
   = (Inl (Error (js ''Kunci API mungkin tidak valid atau tidak terpilih. Harap pastikan Anda telah memilih kunci API berbayar yang valid melalui dialog pemilihan kunci API.'')), 1)
   \<and> generateItinerary exampleEngine
     (answering (Rejects (ErrorInstance (js ''fetch failed''))))
     (examplePreferences CoordNull CoordNull) 0
   = (Inl (Error (js ''Kesalahan API Gemini: fetch failed'')), 1)"
proof -
  let ?p = "examplePreferences CoordNull CoordNull"
  let ?a = "ErrorInstance (js ''Requested entity was not found.'')"
  let ?b = "ErrorInstance (js ''fetch failed'')"
  have 1: "answering (Rejects ?a) (buildRequest exampleEngine ?p) 0 = (Rejects ?a, 1)"
    by (simp add: answering_def)
  have 2: "answering (Rejects ?b) (buildRequest exampleEngine ?p) 0 = (Rejects ?b, 1)"
    by (simp add: answering_def)
  have 3: "includesStr (js ''Requested entity was not found.'') (js ''Requested entity was not found.'')"
    by (simp add: js_def)
  have 4: "\<not> includesStr (js ''fetch failed'') (js ''Requested entity was not found.'')"
    by (simp add: js_def)
  have 5: "js ''Kesalahan API Gemini: '' @ js ''fetch failed'' = js ''Kesalahan API Gemini: fetch failed''"
    by (simp add: js_def)
  note a = client_failure_with_message [where client = "answering (Rejects ?a)" and eng = exampleEngine
      and p = ?p and s = 0 and e = ?a and s' = 1 and m = "js ''Requested entity was not found.''"]
  note b = client_failure_with_message [where client = "answering (Rejects ?b)" and eng = exampleEngine
      and p = ?p and s = 0 and e = ?b and s' = 1 and m = "js ''fetch failed''"]
  have "generateItinerary exampleEngine (answering (Rejects ?a)) ?p 0
   = (Inl (Error (js ''Kunci API mungkin tidak valid atau tidak terpilih. Harap pastikan Anda telah memilih kunci API berbayar yang valid melalui dialog pemilihan kunci API.'')), 1)"
    using a 1 3 by simp
  moreover have "generateItinerary exampleEngine (answering (Rejects ?b)) ?p 0
   = (Inl (Error (js ''Kesalahan API Gemini: fetch failed'')), 1)"
    using b 2 4 5 by simp
  ultimately show ?thesis by (rule conjI)
qed

text \<open>
  C9.  The claim has every failure of the Model Client, other than the credential one,
  propagated with the generic message.  The handler provides for that, down to an
  unknown-error text for a thrown value that is no \<open>Error\<close>; but it reads \<open>includes\<close> from
  the message before it tests for an \<open>Error\<close>.  So when the client rejects with a value
  that has no message (a thrown string, say), the handler itself raises the engine's
  TypeError, and that is what the pipeline rejects with, after the one call.
\<close>

theorem client_failure_without_message:
  "generateItinerary eng (answering (Rejects NonErrorNoMessage)) p calls
     = (Inl EngineTypeError, calls + 1)"
  by (simp add: generateItinerary_def answering_def handleError_def)

text \<open>
  C10.  Whenever the pipeline resolves, the itinerary of the result is an array: the
  fallback carries the empty array, and a parsed value is returned only behind the test
  that its itinerary is an array.
\<close>

theorem resolved_itinerary_is_sequence:
  "(generateItinerary eng client p s = (Inr r, s')
      \<longrightarrow> (\<exists>xs. getProperty (itineraryData r) (js ''itinerary'') = JArray xs))
   \<and> getProperty (fallbackItinerary eng p raw) (js ''itinerary'') = JArray []"
proof -
  have "\<exists>xs. getProperty (itineraryData r) (js ''itinerary'') = JArray xs"
    if h: "generateItinerary eng client p s = (Inr r, s')"
  proof (cases "client (buildRequest eng p) s")
    case (Pair outcome s1)
    show ?thesis
    proof (cases outcome)
      case (Rejects e)
      then show ?thesis using h Pair by (simp add: generateItinerary_def)
    next
      case (Resolves response)
      then have "processResponse eng p response = Inr r"
        using h Pair by (simp add: generateItinerary_def split: sum.splits)
      then show ?thesis by (rule processResponse_sequence)
    qed
  qed
  then show ?thesis by (simp add: fallback_itinerary_field)
qed

theorem resolved_itinerary_is_sequence_witness:
  \<open>generateItinerary exampleEngine
     (answering (Resolves (citedResponse (js ''{"destination":"Bali","itinerary":[]}''))))
     (examplePreferences CoordNull CoordNull) 0
   = (Inr \<lparr> itineraryData =
             JObject [(js ''destination'', JString (js ''Bali'')), (js ''itinerary'', JArray [])],
           sourceUrls = [\<lparr> uri = Some (js ''https://example.org/kyoto''), title = None \<rparr>] \<rparr>, 1)
   \<and> getProperty (JObject [(js ''destination'', JString (js ''Bali'')), (js ''itinerary'', JArray [])])
       (js ''itinerary'') = JArray []\<close>
proof -
  let ?v = "JObject [(js ''destination'', JString (js ''Bali'')), (js ''itinerary'', JArray [])]"
  let ?r = "\<lparr> itineraryData = ?v,
              sourceUrls = [\<lparr> uri = Some (js ''https://example.org/kyoto''), title = None \<rparr>] \<rparr>"
  have t: \<open>trim (js ''{"destination":"Bali","itinerary":[]}'') = js ''{"destination":"Bali","itinerary":[]}''\<close>
    by (simp add: trim_def js_def isWhiteSpace_def)
  have v: "\<not> invalidStructure ?v"
    by (simp add: invalidStructure_def js_def)
  have c: \<open>collectSourceUrls (citedResponse (js ''{"destination":"Bali","itinerary":[]}''))
             = [\<lparr> uri = Some (js ''https://example.org/kyoto''), title = None \<rparr>]\<close>
    by (simp add: collectSourceUrls_def responseChunks_def citedResponse_def pushChunk_def)
  have rt: \<open>responseText (citedResponse (js ''{"destination":"Bali","itinerary":[]}''))
             = Some (js ''{"destination":"Bali","itinerary":[]}'')\<close>
    by (simp add: citedResponse_def)
  have u: "\<not> useMapsGrounding (examplePreferences CoordNull CoordNull)"
    by (simp add: useMapsGrounding_def examplePreferences_def)
  have ne: \<open>js ''{"destination":"Bali","itinerary":[]}'' \<noteq> []\<close>
    by (simp add: js_def)
  have g: \<open>generateItinerary exampleEngine
     (answering (Resolves (citedResponse (js ''{"destination":"Bali","itinerary":[]}''))))
     (examplePreferences CoordNull CoordNull) 0 = (Inr ?r, 1)\<close>
    using u v ne
    by (simp add: generateItinerary_def answering_def processResponse_def t extract_bali
        parse_bali c rt)
  show ?thesis
    using g resolved_itinerary_is_sequence
      [of exampleEngine
        \<open>answering (Resolves (citedResponse (js ''{"destination":"Bali","itinerary":[]}'')))\<close>
        "examplePreferences CoordNull CoordNull" 0 ?r 1 "[]"]
    by (simp add: js_def)
qed

end
